theory Spec2Isabelle
  imports Main "HOL-Library.Sublist"
begin

section \<open>The routing rules engine of src/App.js\<close>

text \<open>
  The development embeds \<^verbatim>\<open>determineRouting\<close> (App.js, lines 357-440), the roster update
  that \<^verbatim>\<open>processOrder\<close> passes to \<^verbatim>\<open>setTeam\<close> (lines 528-537), and the roster state with
  its other writer \<^verbatim>\<open>updateTeamStats\<close> (lines 341 and 350-354).

  Conventions of the embedding.
  \<^item> A JavaScript string is a \<^typ>\<open>string\<close>. Every string the engine compares against is
    ASCII; \<^verbatim>\<open>toUpperCase\<close> is modelled on ASCII letters and leaves every other character
    as it is.
  \<^item> A JavaScript number is an \<^typ>\<open>int\<close>: the counters and counts of the engine are integers,
    the code only adds to them, compares them and prints them in decimal.
  \<^item> A field that the extraction may leave out is an \<^typ>\<open>'a option\<close>; \<open>None\<close> stands for
    \<^verbatim>\<open>undefined\<close> (or \<^verbatim>\<open>null\<close>).
  \<^item> The roster, which the source reads from the component state \<^verbatim>\<open>team\<close>, is an explicit
    argument.
  \<^item> An uncaught exception is the left summand of the result.
  \<^item> Field names are the source's, except where two objects share a name or the name is taken:
    \<open>member_id\<close> is a member's \<^verbatim>\<open>id\<close>, \<open>item_prefixes\<close> a line item's \<^verbatim>\<open>prefixes\<close>,
    \<open>page_pageNumber\<close> and \<open>page_type\<close> a page's \<^verbatim>\<open>pageNumber\<close> and \<^verbatim>\<open>type\<close>, and
    \<open>data_pageCount\<close> the extraction's \<^verbatim>\<open>pageCount\<close>. The extraction's \<^verbatim>\<open>customerInfo\<close>,
    which the engine never reads, is left out.
\<close>

subsection \<open>Data\<close>

record teamMember =
  member_id :: int
  name :: string
  role :: string
  cards :: int
  totalPages :: int
  color :: string

record itemOnPage =
  qty :: "string option"
  desc :: "string option"

record page =
  page_pageNumber :: "int option"
  page_type :: "string option"
  summary :: "string option"
  itemsOnPage :: "itemOnPage list option"

record lineItem =
  lineNumber :: "string option"
  pageNumber :: "int option"
  partNumber :: "string option"
  item_prefixes :: "string list option"
  quantity :: "int option"

record extraction =
  poNumber :: "string option"
  data_pageCount :: "int option"
  totalLineCount :: "int option"
  routingKeywords :: "string list option"
  lineItems :: "lineItem list option"
  pages :: "page list option"

record decision =
  route :: string
  flags :: "string list"
  reason :: string
  evidence :: "string option"
  logs :: "string list"
  pageCount :: int

text \<open>The only exception the engine can raise: a property read on \<^verbatim>\<open>undefined\<close>.\<close>

datatype error = TypeError

subsection \<open>Strings\<close>

text \<open>Template literals print a number in decimal.\<close>

definition digit_char :: "nat \<Rightarrow> char" where
  "digit_char d = char_of (48 + d)"

function showNat :: "nat \<Rightarrow> string" where
  "showNat n = (if n < 10 then [digit_char n] else showNat (n div 10) @ [digit_char (n mod 10)])"
  by pat_completeness auto
termination
  by (relation "measure (\<lambda>n. n)") auto

declare showNat.simps [simp del]

definition showInt :: "int \<Rightarrow> string" where
  "showInt i = (if i < 0 then CHR ''-'' # showNat (nat (- i)) else showNat (nat i))"

text \<open>\<^verbatim>\<open>String.prototype.toUpperCase\<close>, on ASCII: the letters a-z go to A-Z, every other
  character stays.\<close>

definition upper_char :: "char \<Rightarrow> char" where
  "upper_char c =
     (let n = of_char c :: nat in if 97 \<le> n \<and> n \<le> 122 then char_of (n - 32) else c)"

definition toUpperCase :: "string \<Rightarrow> string" where
  "toUpperCase s = map upper_char s"

text \<open>\<^verbatim>\<open>Array.prototype.join(" ")\<close> on an array of strings in which an entry may be
  \<^verbatim>\<open>undefined\<close>: such an entry contributes the empty string.\<close>

fun join_sp :: "string option list \<Rightarrow> string" where
  "join_sp [] = []"
| "join_sp [x] = (case x of None \<Rightarrow> [] | Some s \<Rightarrow> s)"
| "join_sp (x # y # ys) = (case x of None \<Rightarrow> [] | Some s \<Rightarrow> s) @ '' '' @ join_sp (y # ys)"

text \<open>The character class \<^verbatim>\<open>[0-9A-Z]\<close>, by code points.\<close>

definition in_class :: "char \<Rightarrow> bool" where
  "in_class c =
     (let n = of_char c :: nat in (48 \<le> n \<and> n \<le> 57) \<or> (65 \<le> n \<and> n \<le> 90))"

text \<open>\<^verbatim>\<open>p.replace(/[^0-9A-Z]/g, '')\<close> (line 385): every character outside the class is
  replaced by nothing.\<close>

fun cleanPrefix :: "string \<Rightarrow> string" where
  "cleanPrefix [] = []"
| "cleanPrefix (c # cs) = (if in_class c then c # cleanPrefix cs else cleanPrefix cs)"

subsection \<open>Configuration\<close>

definition keyingPrefixes :: "string list" where
  "keyingPrefixes = [''10'', ''21'', ''22'', ''51'', ''59'', ''82'', ''83'', ''73'', ''AL'']"

definition keyingKeywords :: "string list" where
  "keyingKeywords =
     [''MK'', ''GMK'', ''SKD'', ''KA'', ''KEYED'', ''MASTER KEY'', ''GRAND MASTER'', ''KESO'']"

subsection \<open>Volume flags (lines 368-375)\<close>

text \<open>\<^verbatim>\<open>data.totalLineCount || data.lineItems?.length || 0\<close>: the operator \<^verbatim>\<open>||\<close> passes
  over \<^verbatim>\<open>undefined\<close> and over the number 0 alike.\<close>

definition actualLineCount :: "extraction \<Rightarrow> int" where
  "actualLineCount data =
     (case totalLineCount data of
        Some n \<Rightarrow> if n \<noteq> 0 then n else (case lineItems data of Some xs \<Rightarrow> int (length xs) | None \<Rightarrow> 0)
      | None \<Rightarrow> (case lineItems data of Some xs \<Rightarrow> int (length xs) | None \<Rightarrow> 0))"

definition volumeFlags :: "int \<Rightarrow> string list" where
  "volumeFlags n =
     (if n \<ge> 10 then [''10+ LINES'']
      else if n > 0 \<and> n \<le> 3 then [''CHECKERED FLAG'']
      else [])"

definition volumeLogs :: "int \<Rightarrow> string list" where
  "volumeLogs n =
     (if n \<ge> 10 then [''! ALERT: High Volume ('' @ showInt n @ '' lines)''] else [])"

subsection \<open>Keying indicators: the line items (lines 383-403)\<close>

definition cleanPrefixList :: "lineItem \<Rightarrow> string list" where
  "cleanPrefixList item =
     map cleanPrefix (case item_prefixes item of None \<Rightarrow> [] | Some ps \<Rightarrow> ps)"

text \<open>The "hallucination fix" of line 388. An empty part number is falsy, and does not start
  with 31 either.\<close>

definition isFalsePositive :: "lineItem \<Rightarrow> bool" where
  "isFalsePositive item =
     (case partNumber item of
        None \<Rightarrow> False
      | Some pn \<Rightarrow> pn \<noteq> [] \<and> prefix ''31'' pn \<and> ''AL'' \<in> set (cleanPrefixList item))"

definition badPrefix :: "lineItem \<Rightarrow> string option" where
  "badPrefix item = find (\<lambda>p. p \<in> set keyingPrefixes) (cleanPrefixList item)"

text \<open>What a match on a line item writes into \<^verbatim>\<open>reason\<close>, \<^verbatim>\<open>evidence\<close> and the log.\<close>

definition lineReason :: "string \<Rightarrow> string" where
  "lineReason bp = ''Restricted Prefix '' @ [CHR 0x27] @ bp @ [CHR 0x27]"

definition lineEvidence :: "lineItem \<Rightarrow> string \<Rightarrow> string" where
  "lineEvidence item bp =
     ''LINE DETECTED:'' @ [CHR 0x0A] @
     ''Line #: '' @ (case lineNumber item of None \<Rightarrow> ''N/A'' | Some l \<Rightarrow> if l = [] then ''N/A'' else l) @ [CHR 0x0A] @
     ''Page: '' @ (case pageNumber item of None \<Rightarrow> ''?'' | Some n \<Rightarrow> if n = 0 then ''?'' else showInt n) @ [CHR 0x0A] @
     ''Part: '' @ (case partNumber item of None \<Rightarrow> ''undefined'' | Some pn \<Rightarrow> pn) @ [CHR 0x0A] @
     ''Prefix: ['' @ bp @ '']''"

definition lineLog :: "lineItem \<Rightarrow> string \<Rightarrow> string" where
  "lineLog item bp =
     ''> MATCH FOUND: Keying Prefix ['' @ bp @ ''] on Page '' @
     (case pageNumber item of None \<Rightarrow> ''undefined'' | Some n \<Rightarrow> showInt n)"

text \<open>The \<^verbatim>\<open>for\<close> loop over \<^verbatim>\<open>data.lineItems\<close>: \<^verbatim>\<open>continue\<close> on a false positive,
  \<^verbatim>\<open>break\<close> on the first item with a restricted prefix. The result is the item and the prefix
  the loop stopped at. (The test \<^verbatim>\<open>if (badPrefix)\<close> is a test for a found element: every
  configured prefix is a non-empty string.)\<close>

fun scanLineItems :: "lineItem list \<Rightarrow> (lineItem \<times> string) option" where
  "scanLineItems [] = None"
| "scanLineItems (item # rest) =
     (if isFalsePositive item then scanLineItems rest
      else case badPrefix item of
             Some bp \<Rightarrow> Some (item, bp)
           | None \<Rightarrow> scanLineItems rest)"

subsection \<open>Keying indicators: the global text (lines 405-421)\<close>

definition safeSearchFields :: "extraction \<Rightarrow> string option list" where
  "safeSearchFields data =
     map Some (case routingKeywords data of None \<Rightarrow> [] | Some ks \<Rightarrow> ks) @
     map summary (case pages data of None \<Rightarrow> [] | Some ps \<Rightarrow> ps) @
     concat (map (\<lambda>p. case itemsOnPage p of None \<Rightarrow> [] | Some its \<Rightarrow> map desc its)
                 (case pages data of None \<Rightarrow> [] | Some ps \<Rightarrow> ps))"

definition globalText :: "extraction \<Rightarrow> string" where
  "globalText data = toUpperCase (join_sp (safeSearchFields data))"

definition foundKeyword :: "extraction \<Rightarrow> string option" where
  "foundKeyword data = find (\<lambda>kw. sublist kw (globalText data)) keyingKeywords"

definition keywordEvidence :: "string \<Rightarrow> string" where
  "keywordEvidence kw =
     ''KEYWORD DETECTED: '' @ [CHR 0x22] @ kw @ [CHR 0x22] @ '' found in notes/summary.''"

definition keywordLog :: "string \<Rightarrow> string" where
  "keywordLog kw = ''> MATCH FOUND: Global Keyword ['' @ kw @ '']''"

text \<open>Both phases together: \<open>None\<close> when \<^verbatim>\<open>isKeying\<close> stays false, else the reason, the
  evidence and the log line that the match wrote.\<close>

definition detectKeying :: "extraction \<Rightarrow> (string \<times> string \<times> string) option" where
  "detectKeying data =
     (case scanLineItems (case lineItems data of None \<Rightarrow> [] | Some xs \<Rightarrow> xs) of
        Some (item, bp) \<Rightarrow> Some (lineReason bp, lineEvidence item bp, lineLog item bp)
      | None \<Rightarrow>
          (case foundKeyword data of
             Some kw \<Rightarrow> Some (''Global Keyword Match'', keywordEvidence kw, keywordLog kw)
           | None \<Rightarrow> None))"

subsection \<open>The decision (lines 357-440)\<close>

text \<open>\<^verbatim>\<open>oeReps.sort((a, b) => a.totalPages - b.totalPages)\<close> is a stable ascending sort by
  \<^verbatim>\<open>totalPages\<close>, which is what \<^const>\<open>sort_key\<close> computes. Reading \<^verbatim>\<open>.name\<close> of element 0
  of an empty array raises the TypeError.\<close>

definition determineRouting :: "teamMember list \<Rightarrow> extraction \<Rightarrow> error + decision" where
  "determineRouting team data =
     (let logs0 = [''> Initializing Routing Protocol...'', ''> Scanning content for flags...''];
          n = actualLineCount data;
          logs1 = logs0 @ volumeLogs n;
          pc = (case data_pageCount data of None \<Rightarrow> 1 | Some k \<Rightarrow> if k = 0 then 1 else k)
      in case detectKeying data of
           Some (rsn, ev, lg) \<Rightarrow>
             (let rt = (case find (\<lambda>m. sublist ''Keying'' (role m)) team of
                          Some keyingRep \<Rightarrow> name keyingRep
                        | None \<Rightarrow> ''Keying Dept'')
              in Inr \<lparr> route = rt, flags = volumeFlags n, reason = rsn, evidence = Some ev,
                       logs = logs1 @ [lg, ''> ROUTING: Directed to Special Handling ('' @ rt @ '')''],
                       pageCount = pc \<rparr>)
         | None \<Rightarrow>
             (case sort_key totalPages (filter (\<lambda>m. role m = ''Order Entry'') team) of
                [] \<Rightarrow> Inl TypeError
              | targetRep # _ \<Rightarrow>
                  Inr \<lparr> route = name targetRep, flags = volumeFlags n,
                        reason = ''Lowest Page Load ('' @ showInt (totalPages targetRep) @ ''pgs)'',
                        evidence = None,
                        logs = logs1 @ [''> No restrictions found.'', ''> Calculating workload balance...'',
                                 ''> ASSIGNMENT: '' @ name targetRep @ '' (Load: '' @
                                   showInt (totalPages targetRep) @ '')''],
                        pageCount = pc \<rparr>))"

subsection \<open>The roster update (lines 528-537)\<close>

text \<open>\<^verbatim>\<open>finalOrder\<close> spreads the decision over the extracted data, so
  \<^verbatim>\<open>finalOrder.pageCount\<close> is the decision's \<^verbatim>\<open>pageCount\<close>; \<^verbatim>\<open>|| 1\<close> replaces a 0.\<close>

definition updateTeam :: "decision \<Rightarrow> teamMember list \<Rightarrow> teamMember list" where
  "updateTeam d prevTeam =
     map (\<lambda>member.
            if name member = route d
            then member \<lparr> cards := cards member + 1,
                          totalPages := totalPages member + (if pageCount d = 0 then 1 else pageCount d) \<rparr>
            else member)
         prevTeam"

text \<open>\<^verbatim>\<open>processOrder\<close> from the parsed extraction on: the decision, then the new roster.\<close>

definition processOrder :: "teamMember list \<Rightarrow> extraction \<Rightarrow> error + (decision \<times> teamMember list)" where
  "processOrder team data =
     (case determineRouting team data of
        Inl e \<Rightarrow> Inl e
      | Inr d \<Rightarrow> Inr (d, updateTeam d team))"

subsection \<open>Rosters and extractions to run the engine on\<close>

text \<open>The initial roster of the application (lines 303-311).\<close>

definition INITIAL_TEAM :: "teamMember list" where
  "INITIAL_TEAM =
     [\<lparr> member_id = 1, name = ''Hector Origel'', role = ''Order Entry'', cards = 5, totalPages = 45, color = ''#3b82f6'' \<rparr>,
      \<lparr> member_id = 2, name = ''Jairo Figueroa'', role = ''Order Entry'', cards = 4, totalPages = 25, color = ''#10b981'' \<rparr>,
      \<lparr> member_id = 5, name = ''Claudia Franco'', role = ''Order Entry'', cards = 9, totalPages = 12, color = ''#ec4899'' \<rparr>,
      \<lparr> member_id = 6, name = ''Emmanuel Rojas'', role = ''Order Entry'', cards = 3, totalPages = 30, color = ''#06b6d4'' \<rparr>,
      \<lparr> member_id = 7, name = ''Paulina Lobo'', role = ''Order Entry'', cards = 0, totalPages = 0, color = ''#84cc16'' \<rparr>,
      \<lparr> member_id = 3, name = ''Maureen Thompson'', role = ''Intl/Keying'', cards = 12, totalPages = 60, color = ''#8b5cf6'' \<rparr>,
      \<lparr> member_id = 4, name = ''Susan Alpert'', role = ''Chargebacks'', cards = 2, totalPages = 5, color = ''#f59e0b'' \<rparr>]"


definition generalistsOnly :: "teamMember list" where
  "generalistsOnly = filter (\<lambda>m. role m = ''Order Entry'') INITIAL_TEAM"

text \<open>Three generalists A, B, C with loads 30, 10, 10.\<close>

definition rosterABC :: "teamMember list" where
  "rosterABC =
     [\<lparr> member_id = 1, name = ''A'', role = ''Order Entry'', cards = 0, totalPages = 30, color = [] \<rparr>,
      \<lparr> member_id = 2, name = ''B'', role = ''Order Entry'', cards = 0, totalPages = 10, color = [] \<rparr>,
      \<lparr> member_id = 3, name = ''C'', role = ''Order Entry'', cards = 0, totalPages = 10, color = [] \<rparr>]"

text \<open>The extraction \<^verbatim>\<open>{}\<close>, with every field missing.\<close>

definition noData :: extraction where
  "noData = \<lparr> poNumber = None, data_pageCount = None, totalLineCount = None,
              routingKeywords = None, lineItems = None, pages = None \<rparr>"

text \<open>A line item on page 2 with the given line number, part number and prefixes.\<close>

definition mkItem :: "string \<Rightarrow> string \<Rightarrow> string list \<Rightarrow> lineItem" where
  "mkItem ln pn ps = \<lparr> lineNumber = Some ln, pageNumber = Some 2, partNumber = Some pn,
                       item_prefixes = Some ps, quantity = Some 1 \<rparr>"


text \<open>Extractions: seven pages and nothing else; two routing keywords and nothing else.\<close>

definition sevenPages :: extraction where
  "sevenPages = noData \<lparr> data_pageCount := Some 7 \<rparr>"

definition keywordsOnly :: extraction where
  "keywordsOnly = noData \<lparr> routingKeywords := Some [''Quick Ship'', ''mk''] \<rparr>"


definition alOnly :: extraction where
  "alOnly = noData \<lparr> lineItems := Some [mkItem ''1'' ''3100-X'' [''AL'']] \<rparr>"



text \<open>An extraction that only reports a total line count; one that reports the count 0 next to
  one extracted line item.\<close>

definition lineCount :: "int \<Rightarrow> extraction" where
  "lineCount n = noData \<lparr> totalLineCount := Some n \<rparr>"

definition zeroCount :: extraction where
  "zeroCount = noData \<lparr> totalLineCount := Some 0,
                         lineItems := Some [mkItem ''1'' ''4400'' [''99'']] \<rparr>"

subsection \<open>The roster state (lines 341, 350-354, 528-537)\<close>







section \<open>The two routes of the engine\<close>

lemma determineRouting_keying:
  assumes "detectKeying data = Some (rsn, ev, lg)"
  shows "\<exists>d. determineRouting team data = Inr d
           \<and> route d = (case find (\<lambda>m. sublist ''Keying'' (role m)) team of
                          Some keyingRep \<Rightarrow> name keyingRep | None \<Rightarrow> ''Keying Dept'')
           \<and> reason d = rsn \<and> evidence d = Some ev
           \<and> flags d = volumeFlags (actualLineCount data)"
  using assms by (simp add: determineRouting_def Let_def)

lemma determineRouting_balanced:
  assumes "detectKeying data = None"
      and "sort_key totalPages (filter (\<lambda>m. role m = ''Order Entry'') team) = t # ts"
  shows "\<exists>d. determineRouting team data = Inr d \<and> route d = name t
           \<and> reason d = ''Lowest Page Load ('' @ showInt (totalPages t) @ ''pgs)''
           \<and> evidence d = None
           \<and> flags d = volumeFlags (actualLineCount data)
           \<and> pageCount d = (case data_pageCount data of None \<Rightarrow> 1 | Some k \<Rightarrow> if k = 0 then 1 else k)"
  using assms by (simp add: determineRouting_def Let_def)

lemma determineRouting_empty_pool:
  assumes "detectKeying data = None"
      and "filter (\<lambda>m. role m = ''Order Entry'') team = []"
  shows "determineRouting team data = Inl TypeError"
  using assms by (simp add: determineRouting_def Let_def)

lemma determineRouting_flags:
  "determineRouting team data = Inr d \<Longrightarrow> flags d = volumeFlags (actualLineCount data)"
  by (auto simp: determineRouting_def Let_def split: option.splits list.splits)

lemma determineRouting_pageCount_eq:
  "determineRouting team data = Inr d \<Longrightarrow>
   pageCount d = (case data_pageCount data of None \<Rightarrow> 1 | Some k \<Rightarrow> if k = 0 then 1 else k)"
  by (auto simp: determineRouting_def Let_def split: option.splits list.splits)

lemma determineRouting_pageCount:
  "determineRouting team data = Inr d \<Longrightarrow> pageCount d \<noteq> 0"
  by (auto simp: determineRouting_def Let_def split: option.splits list.splits if_splits)

section \<open>The roster update\<close>

lemma updateTeam_length: "length (updateTeam d prevTeam) = length prevTeam"
  by (simp add: updateTeam_def)

lemma updateTeam_nth:
  "i < length prevTeam \<Longrightarrow> pageCount d \<noteq> 0 \<Longrightarrow>
   updateTeam d prevTeam ! i =
     (if name (prevTeam ! i) = route d
      then (prevTeam ! i)\<lparr> cards := cards (prevTeam ! i) + 1,
                            totalPages := totalPages (prevTeam ! i) + pageCount d \<rparr>
      else prevTeam ! i)"
  by (simp add: updateTeam_def)

text \<open>
  C5. For every roster and every decision of the engine, the updated roster has the same
  operators in the same order; each operator whose name is the decision's route has \<open>cards\<close>
  one higher and \<open>totalPages\<close> higher by the decision's \<open>pageCount\<close>, with its other fields as
  they were; every other operator's record is unchanged.
\<close>

theorem roster_update_increments:
  assumes "determineRouting team data = Inr d"
  shows "length (updateTeam d prevTeam) = length prevTeam \<and>
         (\<forall>i < length prevTeam.
            updateTeam d prevTeam ! i =
              (if name (prevTeam ! i) = route d
               then (prevTeam ! i)\<lparr> cards := cards (prevTeam ! i) + 1,
                                     totalPages := totalPages (prevTeam ! i) + pageCount d \<rparr>
               else prevTeam ! i))"
proof -
  have "pageCount d \<noteq> 0"
    using assms by (rule determineRouting_pageCount)
  then show ?thesis
    by (simp add: updateTeam_length updateTeam_nth)
qed

lemma sevenPages_sorted:
  "sort_key totalPages (filter (\<lambda>m. role m = ''Order Entry'') INITIAL_TEAM) =
     (INITIAL_TEAM ! 4) # [INITIAL_TEAM ! 2, INITIAL_TEAM ! 1, INITIAL_TEAM ! 3, INITIAL_TEAM ! 0]"
  by code_simp

lemma sevenPages_no_keying: "detectKeying sevenPages = None"
  by code_simp

theorem roster_update_increments_witness:
  "\<exists>d. determineRouting INITIAL_TEAM sevenPages = Inr d
      \<and> route d = ''Paulina Lobo'' \<and> pageCount d = 7
      \<and> length (updateTeam d INITIAL_TEAM) = 7
      \<and> updateTeam d INITIAL_TEAM ! 4 = (INITIAL_TEAM ! 4) \<lparr> cards := 1, totalPages := 7 \<rparr>
      \<and> updateTeam d INITIAL_TEAM ! 5 = INITIAL_TEAM ! 5"
proof -
  from determineRouting_balanced [OF sevenPages_no_keying sevenPages_sorted]
  obtain d where d: "determineRouting INITIAL_TEAM sevenPages = Inr d"
    and r: "route d = name (INITIAL_TEAM ! 4)"
    and p: "pageCount d = (case data_pageCount sevenPages of None \<Rightarrow> 1 | Some k \<Rightarrow> if k = 0 then 1 else k)"
    by blast
  have r': "route d = ''Paulina Lobo''"
    using r by (simp add: INITIAL_TEAM_def)
  have p': "pageCount d = 7"
    using p by (simp add: sevenPages_def noData_def)
  have len: "length INITIAL_TEAM = 7"
    by (simp add: INITIAL_TEAM_def)
  from roster_update_increments [OF d, of INITIAL_TEAM]
  have u: "length (updateTeam d INITIAL_TEAM) = 7"
    and n: "\<forall>i<7. updateTeam d INITIAL_TEAM ! i =
              (if name (INITIAL_TEAM ! i) = route d
               then (INITIAL_TEAM ! i)\<lparr> cards := cards (INITIAL_TEAM ! i) + 1,
                                     totalPages := totalPages (INITIAL_TEAM ! i) + pageCount d \<rparr>
               else INITIAL_TEAM ! i)"
    by (simp_all add: len)
  have "updateTeam d INITIAL_TEAM ! 4 = (INITIAL_TEAM ! 4) \<lparr> cards := 1, totalPages := 7 \<rparr>"
    using n r' p' by (simp add: INITIAL_TEAM_def)
  moreover have "updateTeam d INITIAL_TEAM ! 5 = INITIAL_TEAM ! 5"
    using n r' by (simp add: INITIAL_TEAM_def)
  ultimately show ?thesis
    using d r' p' u by blast
qed

text \<open>
  C10. If the decision's route is the name of no operator of the roster, the update returns the
  roster as it was; the update has no failing branch.
\<close>

theorem roster_update_noop:
  assumes "\<forall>m\<in>set prevTeam. name m \<noteq> route d"
  shows "updateTeam d prevTeam = prevTeam"
  using assms by (induction prevTeam) (simp_all add: updateTeam_def)

lemma keywordsOnly_keying:
  "detectKeying keywordsOnly = Some (''Global Keyword Match'', keywordEvidence ''MK'', keywordLog ''MK'')"
  by code_simp

lemma generalistsOnly_no_specialist:
  "find (\<lambda>m. sublist ''Keying'' (role m)) generalistsOnly = None"
  by code_simp

lemma generalistsOnly_names:
  "\<forall>m\<in>set generalistsOnly. name m \<noteq> ''Keying Dept''"
  by code_simp

theorem roster_update_noop_witness:
  "\<exists>d. determineRouting generalistsOnly keywordsOnly = Inr d
      \<and> route d = ''Keying Dept''
      \<and> (\<forall>m\<in>set generalistsOnly. name m \<noteq> route d)
      \<and> updateTeam d generalistsOnly = generalistsOnly"
proof -
  from determineRouting_keying [OF keywordsOnly_keying, of generalistsOnly]
  obtain d where d: "determineRouting generalistsOnly keywordsOnly = Inr d"
    and r: "route d = ''Keying Dept''"
    by (auto simp: generalistsOnly_no_specialist)
  have h: "\<forall>m\<in>set generalistsOnly. name m \<noteq> route d"
    using generalistsOnly_names r by simp
  from roster_update_noop [OF h] d r h show ?thesis
    by blast
qed

section \<open>The specialist route\<close>

lemma find_first:
  "P m \<Longrightarrow> \<forall>x\<in>set pre. \<not> P x \<Longrightarrow> find P (pre @ m # post) = Some m"
  by (induction pre) simp_all

lemma find_none: "\<forall>x\<in>set xs. \<not> P x \<Longrightarrow> find P xs = None"
  by (induction xs) simp_all

text \<open>
  C9. When a restriction match is found the engine returns a decision. Its route is the name of
  the first operator, in roster order, whose role carries the tag "Keying" (the role string
  contains it); with no such operator the route is the label "Keying Dept".
\<close>

theorem specialist_route:
  assumes "detectKeying data = Some r"
  shows "\<exists>d. determineRouting team data = Inr d \<and>
           ((\<forall>m\<in>set team. \<not> sublist ''Keying'' (role m)) \<longrightarrow> route d = ''Keying Dept'') \<and>
           (\<forall>pre m post. team = pre @ m # post \<and> sublist ''Keying'' (role m)
                 \<and> (\<forall>x\<in>set pre. \<not> sublist ''Keying'' (role x))
               \<longrightarrow> route d = name m)"
proof -
  obtain rsn ev lg where r: "r = (rsn, ev, lg)"
    by (cases r) auto
  from determineRouting_keying [of data rsn ev lg team] assms r
  obtain d where d: "determineRouting team data = Inr d"
    and rt: "route d = (case find (\<lambda>m. sublist ''Keying'' (role m)) team of
                          Some keyingRep \<Rightarrow> name keyingRep | None \<Rightarrow> ''Keying Dept'')"
    by auto
  have "(\<forall>m\<in>set team. \<not> sublist ''Keying'' (role m)) \<longrightarrow> route d = ''Keying Dept''"
    using rt by (simp add: find_none)
  moreover have "\<forall>pre m post. team = pre @ m # post \<and> sublist ''Keying'' (role m)
                 \<and> (\<forall>x\<in>set pre. \<not> sublist ''Keying'' (role x))
               \<longrightarrow> route d = name m"
    using rt by (auto simp: find_first)
  ultimately show ?thesis
    using d by blast
qed

lemma INITIAL_TEAM_split:
  "INITIAL_TEAM = generalistsOnly @ (INITIAL_TEAM ! 5) # [INITIAL_TEAM ! 6]"
  by code_simp

lemma Maureen_role: "sublist ''Keying'' (role (INITIAL_TEAM ! 5))"
  by code_simp

lemma generalistsOnly_roles: "\<forall>x\<in>set generalistsOnly. \<not> sublist ''Keying'' (role x)"
  by code_simp

lemma Maureen_name: "name (INITIAL_TEAM ! 5) = ''Maureen Thompson''"
  by code_simp

theorem specialist_route_witness:
  "(\<exists>r. detectKeying keywordsOnly = Some r)
   \<and> (\<exists>d. determineRouting INITIAL_TEAM keywordsOnly = Inr d \<and> route d = ''Maureen Thompson'')
   \<and> (\<exists>d. determineRouting generalistsOnly keywordsOnly = Inr d \<and> route d = ''Keying Dept'')"
proof -
  from specialist_route [OF keywordsOnly_keying, of INITIAL_TEAM]
  obtain d where d: "determineRouting INITIAL_TEAM keywordsOnly = Inr d"
    and s: "\<forall>pre m post. INITIAL_TEAM = pre @ m # post \<and> sublist ''Keying'' (role m)
                 \<and> (\<forall>x\<in>set pre. \<not> sublist ''Keying'' (role x))
               \<longrightarrow> route d = name m"
    by blast
  from s INITIAL_TEAM_split Maureen_role generalistsOnly_roles
  have "route d = name (INITIAL_TEAM ! 5)"
    by blast
  then have 1: "\<exists>d. determineRouting INITIAL_TEAM keywordsOnly = Inr d \<and> route d = ''Maureen Thompson''"
    using d Maureen_name by auto
  from specialist_route [OF keywordsOnly_keying, of generalistsOnly] generalistsOnly_roles
  have 2: "\<exists>d. determineRouting generalistsOnly keywordsOnly = Inr d \<and> route d = ''Keying Dept''"
    by blast
  from 1 2 keywordsOnly_keying show ?thesis
    by blast
qed

section \<open>The balanced route\<close>

lemma sort_key_first:
  fixes f :: "'a \<Rightarrow> int"
  assumes "xs \<noteq> []"
  shows "\<exists>pre m post ts. xs = pre @ m # post \<and> (\<forall>x\<in>set pre. f m < f x)
           \<and> (\<forall>x\<in>set post. f m \<le> f x) \<and> sort_key f xs = m # ts"
  using assms
proof (induction xs)
  case Nil
  then show ?case by simp
next
  case (Cons x xs)
  show ?case
  proof (cases "xs = []")
    case True
    then show ?thesis
      by (intro exI[of _ "[]"] exI[of _ x]) simp
  next
    case False
    with Cons.IH obtain pre m post ts where
      dec: "xs = pre @ m # post" and lt: "\<forall>y\<in>set pre. f m < f y"
      and le: "\<forall>y\<in>set post. f m \<le> f y" and srt: "sort_key f xs = m # ts"
      by blast
    show ?thesis
    proof (cases "f x \<le> f m")
      case True
      have "\<forall>y\<in>set xs. f x \<le> f y"
        using True dec lt le by fastforce
      moreover have "sort_key f (x # xs) = x # m # ts"
        using True srt by simp
      ultimately show ?thesis
        by (metis append_Nil empty_iff list.set(1))
    next
      case False
      have "x # xs = (x # pre) @ m # post"
        using dec by simp
      moreover have "\<forall>y\<in>set (x # pre). f m < f y"
        using False lt by simp
      moreover have "sort_key f (x # xs) = m # insort_key f x ts"
        using False srt by simp
      ultimately show ?thesis
        using le by blast
    qed
  qed
qed

text \<open>
  C6. With no restriction match and at least one operator of role "Order Entry", the engine
  returns a decision whose route is the name of an operator \<open>m\<close> of that role such that every
  "Order Entry" operator before \<open>m\<close> in the roster has strictly more \<open>totalPages\<close> and every one
  after \<open>m\<close> has at least as many: the minimum, and the first of the minima. The reason reports
  \<open>totalPages m\<close> as the roster given to the decision has it; the roster update comes after the
  decision.
\<close>

theorem balanced_pick:
  assumes "detectKeying data = None"
      and "oeReps = filter (\<lambda>m. role m = ''Order Entry'') team"
      and "oeReps \<noteq> []"
  shows "\<exists>d pre m post.
           determineRouting team data = Inr d
           \<and> processOrder team data = Inr (d, updateTeam d team)
           \<and> oeReps = pre @ m # post
           \<and> (\<forall>x\<in>set pre. totalPages m < totalPages x)
           \<and> (\<forall>x\<in>set post. totalPages m \<le> totalPages x)
           \<and> route d = name m
           \<and> reason d = ''Lowest Page Load ('' @ showInt (totalPages m) @ ''pgs)''"
proof -
  from sort_key_first [OF assms(3), of totalPages]
  obtain pre m post ts where dec: "oeReps = pre @ m # post"
    and lt: "\<forall>x\<in>set pre. totalPages m < totalPages x"
    and le: "\<forall>x\<in>set post. totalPages m \<le> totalPages x"
    and srt: "sort_key totalPages oeReps = m # ts"
    by blast
  from determineRouting_balanced [OF assms(1), of team m ts] srt assms(2)
  obtain d where d: "determineRouting team data = Inr d" and rt: "route d = name m"
    and rs: "reason d = ''Lowest Page Load ('' @ showInt (totalPages m) @ ''pgs)''"
    by auto
  have "processOrder team data = Inr (d, updateTeam d team)"
    using d by (simp add: processOrder_def)
  with d dec lt le rt rs show ?thesis
    by blast
qed

lemma rosterABC_pool: "filter (\<lambda>m. role m = ''Order Entry'') rosterABC = rosterABC"
  by code_simp

lemma showInt_10: "showInt 10 = ''10''"
  by code_simp

theorem balanced_pick_witness:
  "detectKeying sevenPages = None
   \<and> filter (\<lambda>m. role m = ''Order Entry'') rosterABC \<noteq> []
   \<and> (\<exists>d. determineRouting rosterABC sevenPages = Inr d \<and> route d = ''B''
          \<and> reason d = ''Lowest Page Load (10pgs)''
          \<and> processOrder rosterABC sevenPages = Inr (d, updateTeam d rosterABC)
          \<and> map totalPages (updateTeam d rosterABC) = [30, 17, 10])"
proof -
  have ne: "rosterABC \<noteq> []"
    by (simp add: rosterABC_def)
  from balanced_pick [OF sevenPages_no_keying rosterABC_pool [symmetric] ne]
  obtain d pre m post where d: "determineRouting rosterABC sevenPages = Inr d"
    and po: "processOrder rosterABC sevenPages = Inr (d, updateTeam d rosterABC)"
    and dec: "rosterABC = pre @ m # post"
    and lt: "\<forall>x\<in>set pre. totalPages m < totalPages x"
    and le: "\<forall>x\<in>set post. totalPages m \<le> totalPages x"
    and rt: "route d = name m"
    and rs: "reason d = ''Lowest Page Load ('' @ showInt (totalPages m) @ ''pgs)''"
    by blast
  have "name m = ''B'' \<and> totalPages m = 10"
    using dec lt le by (auto simp: rosterABC_def Cons_eq_append_conv)
  then have r: "route d = ''B''" and s: "reason d = ''Lowest Page Load (10pgs)''"
    using rt rs by (simp_all add: showInt_10)
  have "pageCount d = 7"
    using determineRouting_pageCount_eq [OF d] by (simp add: sevenPages_def noData_def)
  with r have u: "map totalPages (updateTeam d rosterABC) = [30, 17, 10]"
    by (simp add: updateTeam_def rosterABC_def)
  from d r s po u
  have ex: "\<exists>d. determineRouting rosterABC sevenPages = Inr d \<and> route d = ''B''
          \<and> reason d = ''Lowest Page Load (10pgs)''
          \<and> processOrder rosterABC sevenPages = Inr (d, updateTeam d rosterABC)
          \<and> map totalPages (updateTeam d rosterABC) = [30, 17, 10]"
    by (intro exI conjI)
  have ne': "filter (\<lambda>m. role m = ''Order Entry'') rosterABC \<noteq> []"
    using ne by (simp add: rosterABC_pool)
  from sevenPages_no_keying ne' ex show ?thesis
    by (intro conjI)
qed

section \<open>The global keyword scan\<close>













section \<open>The line-item scan\<close>



lemma scanLineItems_skip:
  "isFalsePositive item \<Longrightarrow> scanLineItems (pre @ item # post) = scanLineItems (pre @ post)"
  by (induction pre) (simp_all split: option.splits)

lemma scanLineItems_not_falsePositive:
  "scanLineItems xs = Some (item, bp) \<Longrightarrow> \<not> isFalsePositive item"
  by (induction xs) (auto split: if_splits option.splits)

lemma foundKeyword_lineItems:
  "foundKeyword (data \<lparr> lineItems := xs \<rparr>) = foundKeyword data"
  by (simp add: foundKeyword_def globalText_def safeSearchFields_def)

lemma detectKeying_lineItems:
  "scanLineItems xs = scanLineItems ys \<Longrightarrow>
   detectKeying (data \<lparr> lineItems := Some xs \<rparr>) = detectKeying (data \<lparr> lineItems := Some ys \<rparr>)"
  by (simp add: detectKeying_def foundKeyword_lineItems split: option.splits)

text \<open>
  C8. A line item whose part number starts with "31" and whose cleaned prefix list contains
  "AL" is passed over by the scan: the scan of a list with the item is the scan of the list
  without it, so is the whole restriction detection, and no scan ever stops at such an item.
\<close>

theorem false_positive_skipped:
  assumes "partNumber item = Some pn"
      and "prefix ''31'' pn"
      and "''AL'' \<in> set (map cleanPrefix (case item_prefixes item of None \<Rightarrow> [] | Some ps \<Rightarrow> ps))"
  shows "scanLineItems (pre @ item # post) = scanLineItems (pre @ post)
       \<and> detectKeying (data \<lparr> lineItems := Some (pre @ item # post) \<rparr>)
           = detectKeying (data \<lparr> lineItems := Some (pre @ post) \<rparr>)
       \<and> (\<forall>xs bp. scanLineItems xs \<noteq> Some (item, bp))"
proof -
  have "pn \<noteq> []"
    using assms(2) by auto
  then have fp: "isFalsePositive item"
    using assms by (simp add: isFalsePositive_def cleanPrefixList_def)
  then have "scanLineItems (pre @ item # post) = scanLineItems (pre @ post)"
    by (rule scanLineItems_skip)
  moreover from this have "detectKeying (data \<lparr> lineItems := Some (pre @ item # post) \<rparr>)
           = detectKeying (data \<lparr> lineItems := Some (pre @ post) \<rparr>)"
    by (rule detectKeying_lineItems)
  moreover have "\<forall>xs bp. scanLineItems xs \<noteq> Some (item, bp)"
    using fp scanLineItems_not_falsePositive by blast
  ultimately show ?thesis
    by (intro conjI)
qed

lemma alOnly_item:
  "partNumber (mkItem ''1'' ''3100-X'' [''AL'']) = Some ''3100-X''
   \<and> prefix ''31'' ''3100-X''
   \<and> ''AL'' \<in> set (map cleanPrefix
         (case item_prefixes (mkItem ''1'' ''3100-X'' [''AL'']) of None \<Rightarrow> [] | Some ps \<Rightarrow> ps))"
  by code_simp

lemma noItems_no_keying: "detectKeying (noData \<lparr> lineItems := Some [] \<rparr>) = None"
  by code_simp

theorem false_positive_skipped_witness:
  "partNumber (mkItem ''1'' ''3100-X'' [''AL'']) = Some ''3100-X''
   \<and> prefix ''31'' ''3100-X''
   \<and> ''AL'' \<in> set (map cleanPrefix
         (case item_prefixes (mkItem ''1'' ''3100-X'' [''AL'']) of None \<Rightarrow> [] | Some ps \<Rightarrow> ps))
   \<and> scanLineItems [mkItem ''1'' ''3100-X'' [''AL'']] = None
   \<and> detectKeying alOnly = None
   \<and> (\<exists>d. determineRouting INITIAL_TEAM alOnly = Inr d \<and> route d = ''Paulina Lobo''
          \<and> evidence d = None)"
proof -
  note a = alOnly_item [THEN conjunct1]
  note b = alOnly_item [THEN conjunct2, THEN conjunct1]
  note c = alOnly_item [THEN conjunct2, THEN conjunct2]
  note inst = false_positive_skipped [OF a b c, of "[]" "[]" noData]
  have s: "scanLineItems [mkItem ''1'' ''3100-X'' [''AL'']] = None"
    using inst [THEN conjunct1] by (simp only: append_Nil scanLineItems.simps(1))
  have k: "detectKeying alOnly = None"
    using inst [THEN conjunct2, THEN conjunct1]
    by (simp only: append_Nil alOnly_def [symmetric] noItems_no_keying)
  from determineRouting_balanced [OF k sevenPages_sorted]
  obtain d where d: "determineRouting INITIAL_TEAM alOnly = Inr d"
    and r: "route d = name (INITIAL_TEAM ! 4)" and e: "evidence d = None"
    by (elim exE conjE)
  have "route d = ''Paulina Lobo''"
    using r by (simp add: INITIAL_TEAM_def)
  with d e have "\<exists>d. determineRouting INITIAL_TEAM alOnly = Inr d \<and> route d = ''Paulina Lobo''
          \<and> evidence d = None"
    by (intro exI conjI)
  with a b c s k show ?thesis
    by (intro conjI)
qed













section \<open>The prefix normalizer\<close>

lemma in_class_codes:
  "in_class c \<longleftrightarrow> (of_char c :: nat) \<in> set ([48..<58] @ [65..<91])"
  unfolding in_class_def Let_def
  by (simp only: set_append set_upt Un_iff atLeastLessThan_iff) arith

lemma class_chars_codes:
  "map (of_char :: char \<Rightarrow> nat) ''0123456789ABCDEFGHIJKLMNOPQRSTUVWXYZ'' = [48..<58] @ [65..<91]"
  by code_simp

lemma in_class_chars:
  "in_class c \<longleftrightarrow> c \<in> set ''0123456789ABCDEFGHIJKLMNOPQRSTUVWXYZ''"
proof -
  have "c \<in> set ''0123456789ABCDEFGHIJKLMNOPQRSTUVWXYZ'' \<longleftrightarrow>
        (of_char c :: nat) \<in> of_char ` set ''0123456789ABCDEFGHIJKLMNOPQRSTUVWXYZ''"
    by (rule inj_image_mem_iff [OF inj_of_char, symmetric])
  also have "\<dots> \<longleftrightarrow> (of_char c :: nat) \<in> set (map of_char ''0123456789ABCDEFGHIJKLMNOPQRSTUVWXYZ'')"
    by (simp only: set_map)
  also have "\<dots> \<longleftrightarrow> in_class c"
    by (simp only: class_chars_codes in_class_codes)
  finally show ?thesis ..
qed

lemma cleanPrefix_filter: "cleanPrefix p = filter in_class p"
  by (induction p) simp_all

text \<open>
  C2. The claim has the normalizer fold case, so that "al" becomes "AL". The regular expression
  of the source deletes every character outside 0-9 and A-Z and folds nothing: the lower-case
  letters are deleted, and "al" becomes the empty string.
\<close>

theorem cleanPrefix_lower_case_counterexample:
  "cleanPrefix ''al'' = [] \<and> cleanPrefix ''al'' \<noteq> ''AL''"
  by code_simp

text \<open>
  C2, as the code has it. The normalizer returns its argument with every character outside
  0-9 and A-Z removed, the other characters kept as they are and in their order; it is applied
  to each entry of a line item's prefixes (none if the field is missing). No case folding takes
  place: "AL" stays, "Al-1 0" becomes "A10", "al" becomes the empty string.
\<close>

theorem cleanPrefix_strips:
  "cleanPrefix p = filter (\<lambda>c. c \<in> set ''0123456789ABCDEFGHIJKLMNOPQRSTUVWXYZ'') p
   \<and> cleanPrefixList item =
       map (filter (\<lambda>c. c \<in> set ''0123456789ABCDEFGHIJKLMNOPQRSTUVWXYZ''))
           (case item_prefixes item of None \<Rightarrow> [] | Some ps \<Rightarrow> ps)
   \<and> cleanPrefix ''AL'' = ''AL''
   \<and> cleanPrefix ''Al-1 0'' = ''A10''
   \<and> cleanPrefix ''al'' = []"
proof -
  have "in_class = (\<lambda>c. c \<in> set ''0123456789ABCDEFGHIJKLMNOPQRSTUVWXYZ'')"
    by (rule ext) (rule in_class_chars)
  then have f: "cleanPrefix = filter (\<lambda>c. c \<in> set ''0123456789ABCDEFGHIJKLMNOPQRSTUVWXYZ'')"
    by (intro ext) (simp only: cleanPrefix_filter)
  have 1: "cleanPrefix p = filter (\<lambda>c. c \<in> set ''0123456789ABCDEFGHIJKLMNOPQRSTUVWXYZ'') p"
    by (simp only: f)
  have 2: "cleanPrefixList item =
       map (filter (\<lambda>c. c \<in> set ''0123456789ABCDEFGHIJKLMNOPQRSTUVWXYZ''))
           (case item_prefixes item of None \<Rightarrow> [] | Some ps \<Rightarrow> ps)"
    by (simp only: cleanPrefixList_def f)
  have 3: "cleanPrefix ''AL'' = ''AL''"
    by code_simp
  have 4: "cleanPrefix ''Al-1 0'' = ''A10''"
    by code_simp
  have 5: "cleanPrefix ''al'' = []"
    by code_simp
  from 1 2 3 4 5 show ?thesis
    by (intro conjI)
qed

section \<open>The volume flag\<close>

lemma foundKeyword_totalLineCount:
  "foundKeyword (data \<lparr> totalLineCount := x \<rparr>) = foundKeyword data"
  by (simp add: foundKeyword_def globalText_def safeSearchFields_def)

lemma detectKeying_totalLineCount:
  "detectKeying (data \<lparr> totalLineCount := x \<rparr>) = detectKeying data"
  by (simp add: detectKeying_def foundKeyword_totalLineCount split: option.splits)

lemma noData_no_keying: "detectKeying noData = None"
  by code_simp

lemma lineCount_no_keying: "detectKeying (lineCount n) = None"
  by (simp only: lineCount_def detectKeying_totalLineCount noData_no_keying)

lemma lineCount_fields:
  "totalLineCount (lineCount n) = Some n \<and> lineItems (lineCount n) = None"
  by (simp add: lineCount_def noData_def)

text \<open>
  C4. The claim has the line count fall back to the number of line items only when
  \<open>totalLineCount\<close> is absent, and has \<open>totalLineCount = 0\<close> yield no flag on every input. The
  source's \<^verbatim>\<open>||\<close> passes over a count of 0 as it does over a missing one: with a count of 0 and
  one extracted line item the flag is "CHECKERED FLAG".
\<close>

theorem volume_flag_zero_counterexample:
  "totalLineCount zeroCount = Some 0
   \<and> (case determineRouting INITIAL_TEAM zeroCount of
        Inl e \<Rightarrow> False
      | Inr d \<Rightarrow> flags d = [''CHECKERED FLAG''] \<and> flags d \<noteq> [])"
  by code_simp

text \<open>
  C4, as the code has it. Let \<open>n\<close> be \<open>totalLineCount\<close> if it is present and not 0, and the
  number of line items (0 if there are none) otherwise. A decision of the engine carries exactly
  the flag "10+ LINES" if \<open>n \<ge> 10\<close>, exactly "CHECKERED FLAG" if \<open>1 \<le> n \<le> 3\<close>, and no flag
  otherwise. So \<open>totalLineCount = 10\<close> gives "10+ LINES", 3 gives "CHECKERED FLAG", 4 gives no
  flag, and 0 gives no flag when no line item was extracted.
\<close>

theorem volume_flag:
  assumes "determineRouting team data = Inr d"
      and "len = (case lineItems data of Some xs \<Rightarrow> int (length xs) | None \<Rightarrow> 0)"
      and "n = (case totalLineCount data of Some k \<Rightarrow> if k = 0 then len else k | None \<Rightarrow> len)"
  shows "(10 \<le> n \<longrightarrow> flags d = [''10+ LINES''])
       \<and> (1 \<le> n \<and> n \<le> 3 \<longrightarrow> flags d = [''CHECKERED FLAG''])
       \<and> (n \<le> 0 \<or> (4 \<le> n \<and> n \<le> 9) \<longrightarrow> flags d = [])
       \<and> (totalLineCount data = Some 10 \<longrightarrow> flags d = [''10+ LINES''])
       \<and> (totalLineCount data = Some 3 \<longrightarrow> flags d = [''CHECKERED FLAG''])
       \<and> (totalLineCount data = Some 4 \<longrightarrow> flags d = [])
       \<and> (totalLineCount data = Some 0 \<and> len = 0 \<longrightarrow> flags d = [])"
proof -
  have n: "actualLineCount data = n"
    using assms(2,3) by (simp add: actualLineCount_def split: option.splits)
  have f: "flags d = volumeFlags n"
    using determineRouting_flags [OF assms(1)] n by simp
  have 1: "10 \<le> n \<longrightarrow> flags d = [''10+ LINES'']"
    by (simp add: f volumeFlags_def)
  have 2: "1 \<le> n \<and> n \<le> 3 \<longrightarrow> flags d = [''CHECKERED FLAG'']"
    by (simp add: f volumeFlags_def)
  have 3: "n \<le> 0 \<or> (4 \<le> n \<and> n \<le> 9) \<longrightarrow> flags d = []"
    by (auto simp: f volumeFlags_def)
  have 4: "totalLineCount data = Some 10 \<longrightarrow> flags d = [''10+ LINES'']"
    using 1 assms(3) by simp
  have 5: "totalLineCount data = Some 3 \<longrightarrow> flags d = [''CHECKERED FLAG'']"
    using 2 assms(3) by simp
  have 6: "totalLineCount data = Some 4 \<longrightarrow> flags d = []"
    using 3 assms(3) by simp
  have 7: "totalLineCount data = Some 0 \<and> len = 0 \<longrightarrow> flags d = []"
    using 3 assms(3) by simp
  from 1 2 3 4 5 6 7 show ?thesis
    by (intro conjI)
qed

theorem volume_flag_witness:
  "(\<exists>d. determineRouting INITIAL_TEAM (lineCount 10) = Inr d \<and> flags d = [''10+ LINES''])
   \<and> (\<exists>d. determineRouting INITIAL_TEAM (lineCount 3) = Inr d \<and> flags d = [''CHECKERED FLAG''])
   \<and> (\<exists>d. determineRouting INITIAL_TEAM (lineCount 4) = Inr d \<and> flags d = [])
   \<and> (\<exists>d. determineRouting INITIAL_TEAM (lineCount 0) = Inr d \<and> flags d = [])"
proof -
  have run: "\<exists>d. determineRouting INITIAL_TEAM (lineCount k) = Inr d" for k
    using determineRouting_balanced [OF lineCount_no_keying sevenPages_sorted, of k]
    by (elim exE conjE) (rule exI)
  have t: "totalLineCount (lineCount k) = Some k" for k
    by (rule lineCount_fields [THEN conjunct1])
  have l: "(case lineItems (lineCount k) of Some xs \<Rightarrow> int (length xs) | None \<Rightarrow> 0) = 0" for k
    by (simp only: lineCount_fields [THEN conjunct2] option.case)
  from run obtain d10 where d10: "determineRouting INITIAL_TEAM (lineCount 10) = Inr d10" ..
  from run obtain d3 where d3: "determineRouting INITIAL_TEAM (lineCount 3) = Inr d3" ..
  from run obtain d4 where d4: "determineRouting INITIAL_TEAM (lineCount 4) = Inr d4" ..
  from run obtain d0 where d0: "determineRouting INITIAL_TEAM (lineCount 0) = Inr d0" ..
  have "flags d10 = [''10+ LINES'']"
    by (rule volume_flag [OF d10 refl refl, THEN conjunct2, THEN conjunct2, THEN conjunct2,
          THEN conjunct1, THEN mp, OF t])
  with d10 have 1: "\<exists>d. determineRouting INITIAL_TEAM (lineCount 10) = Inr d \<and> flags d = [''10+ LINES'']"
    by (intro exI conjI)
  have "flags d3 = [''CHECKERED FLAG'']"
    by (rule volume_flag [OF d3 refl refl, THEN conjunct2, THEN conjunct2, THEN conjunct2,
          THEN conjunct2, THEN conjunct1, THEN mp, OF t])
  with d3 have 2: "\<exists>d. determineRouting INITIAL_TEAM (lineCount 3) = Inr d \<and> flags d = [''CHECKERED FLAG'']"
    by (intro exI conjI)
  have "flags d4 = []"
    by (rule volume_flag [OF d4 refl refl, THEN conjunct2, THEN conjunct2, THEN conjunct2,
          THEN conjunct2, THEN conjunct2, THEN conjunct1, THEN mp, OF t])
  with d4 have 3: "\<exists>d. determineRouting INITIAL_TEAM (lineCount 4) = Inr d \<and> flags d = []"
    by (intro exI conjI)
  have "flags d0 = []"
    by (rule volume_flag [OF d0 refl refl, THEN conjunct2, THEN conjunct2, THEN conjunct2,
          THEN conjunct2, THEN conjunct2, THEN conjunct2, THEN mp, OF conjI [OF t l]])
  with d0 have 4: "\<exists>d. determineRouting INITIAL_TEAM (lineCount 0) = Inr d \<and> flags d = []"
    by (intro exI conjI)
  from 1 2 3 4 show ?thesis
    by (intro conjI)
qed

section \<open>The generalist pool\<close>
















end
